theory Spec2Isabelle
  imports Main
begin

section \<open>JavaScript values shared by the stores\<close>

text \<open>
  A JavaScript string is a sequence of UTF-16 code units and \<open>length\<close> counts code units.
  A code unit is modelled by its number; \<open>js\<close> embeds an ASCII literal.
\<close>

type_synonym code_unit = nat
type_synonym jsstring = "code_unit list"

definition js :: "string \<Rightarrow> jsstring" where
  "js s = map of_char s"

text \<open>
  What a rejected promise carries. The stores only read \<open>error.message\<close>, which is
  \<open>undefined\<close> (\<open>None\<close>) when the thrown value has no such property.
\<close>

record js_error =
  err_message :: "jsstring option"

text \<open>\<open>error.message || fallback\<close>: \<open>undefined\<close> and the empty string are falsy.\<close>

definition message_or :: "js_error \<Rightarrow> jsstring \<Rightarrow> jsstring" where
  "message_or e fallback =
     (case err_message e of
        None \<Rightarrow> fallback
      | Some m \<Rightarrow> if m = [] then fallback else m)"

text \<open>The settled promise of a gateway call: rejected with an error or resolved with a payload.\<close>

datatype 'a outcome = Rejected js_error | Resolved 'a

text \<open>
  The stores read a payload as \<open>response.note || response\<close> (and \<open>response.notes || response\<close>):
  the reply is either the documented envelope or the bare payload.
\<close>

datatype 'a reply = Enveloped 'a | Bare 'a

fun unwrap :: "'a reply \<Rightarrow> 'a" where
  "unwrap (Enveloped x) = x"
| "unwrap (Bare x) = x"

text \<open>Truthiness of a value that is a string or \<open>null\<close>: \<open>null\<close> and \<open>""\<close> are falsy.\<close>

definition truthy_string :: "jsstring option \<Rightarrow> bool" where
  "truthy_string v = (case v of None \<Rightarrow> False | Some t \<Rightarrow> t \<noteq> [])"

section \<open>HTTP gateway: the response interceptor's error handler (src/utils/api.ts)\<close>

text \<open>
  The body of an error response is whatever the HTTP client parsed: a JavaScript value.
  A number is given by the integer it denotes (the handler only tests whether it is zero);
  an object is the list of its own properties.
\<close>

datatype jsval =
    JUndefined
  | JNull
  | JBool bool
  | JNum int
  | JStr jsstring
  | JObj "(jsstring \<times> jsval) list"
  | JArr "jsval list"

fun truthy :: "jsval \<Rightarrow> bool" where
  "truthy JUndefined = False"
| "truthy JNull = False"
| "truthy (JBool b) = b"
| "truthy (JNum n) = (n \<noteq> 0)"
| "truthy (JStr t) = (t \<noteq> [])"
| "truthy (JObj ps) = True"
| "truthy (JArr vs) = True"

text \<open>\<open>typeof v === 'object'\<close> and \<open>typeof v === 'string'\<close>.\<close>

fun typeof_object :: "jsval \<Rightarrow> bool" where
  "typeof_object JNull = True"
| "typeof_object (JObj ps) = True"
| "typeof_object (JArr vs) = True"
| "typeof_object _ = False"

fun typeof_string :: "jsval \<Rightarrow> bool" where
  "typeof_string (JStr t) = True"
| "typeof_string _ = False"

text \<open>
  \<open>v.message\<close> on a value that is not \<open>null\<close> or \<open>undefined\<close>: the property of an object,
  \<open>undefined\<close> on anything else.
\<close>

fun get_message :: "jsval \<Rightarrow> jsval" where
  "get_message (JObj ps) =
     (case map_of ps (js ''message'') of None \<Rightarrow> JUndefined | Some v \<Rightarrow> v)"
| "get_message _ = JUndefined"

text \<open>
  The rejection the handler receives: an error with its \<open>message\<close> and, when the server
  answered, the response with its parsed body and status text.
\<close>

record AxiosResponse =
  data :: jsval
  statusText :: jsstring

record axios_error = js_error +
  err_response :: "AxiosResponse option"

text \<open>\<open>error.response?.data\<close>\<close>

definition response_data :: "axios_error \<Rightarrow> jsval" where
  "response_data e = (case err_response e of None \<Rightarrow> JUndefined | Some r \<Rightarrow> data r)"

text \<open>\<open>error.response?.statusText\<close>, \<open>None\<close> for \<open>undefined\<close>\<close>

definition response_statusText :: "axios_error \<Rightarrow> jsstring option" where
  "response_statusText e = (case err_response e of None \<Rightarrow> None | Some r \<Rightarrow> Some (statusText r))"

definition fallback_message :: jsstring where
  "fallback_message = js ''Something went wrong''"

text \<open>
  The value of the variable \<open>message\<close> when the handler throws. \<open>JSON.stringify\<close> is the
  platform's and is a parameter.
\<close>

definition chosen_message :: "(jsval \<Rightarrow> jsstring) \<Rightarrow> axios_error \<Rightarrow> jsval" where
  "chosen_message json_stringify e =
     (let d = response_data e
      in if truthy d then
           (if typeof_object d \<and> truthy (get_message d) then get_message d
            else if typeof_string d then d
            else if typeof_object d then JStr (json_stringify d)
            else JStr fallback_message)
         else if truthy_string (err_message e) then JStr (the (err_message e))
         else if truthy_string (response_statusText e) then JStr (the (response_statusText e))
         else JStr fallback_message)"

text \<open>
  \<open>throw new Error(message)\<close>: the error's message is the string itself, or the platform's
  conversion to a string (\<open>to_string\<close>, a parameter) of a value that is not a string.
\<close>

definition response_error_handler ::
  "(jsval \<Rightarrow> jsstring) \<Rightarrow> (jsval \<Rightarrow> jsstring) \<Rightarrow> axios_error \<Rightarrow> js_error" where
  "response_error_handler json_stringify to_string e =
     (case chosen_message json_stringify e of
        JStr t \<Rightarrow> \<lparr>err_message = Some t\<rparr>
      | v \<Rightarrow> \<lparr>err_message = Some (to_string v)\<rparr>)"

text \<open>
  The precedence as the specification words it, the first applicable rule winning: (1) the
  \<open>message\<close> field of a structured body that has one, (2) the body when it is a plain string,
  (3) the dump of a structured body without \<open>message\<close>, (4) the transport-level description,
  (5) the status text, (6) the fallback. A field or text that is absent or empty does not
  count as present.
\<close>

definition spec_message :: "(jsval \<Rightarrow> jsstring) \<Rightarrow> axios_error \<Rightarrow> jsval" where
  "spec_message json_stringify e =
     (let d = response_data e
      in if truthy d \<and> typeof_object d \<and> truthy (get_message d) then get_message d
         else if truthy d \<and> typeof_string d then d
         else if truthy d \<and> typeof_object d then JStr (json_stringify d)
         else if truthy_string (err_message e) then JStr (the (err_message e))
         else if truthy_string (response_statusText e) then JStr (the (response_statusText e))
         else JStr fallback_message)"

text \<open>A body that is present but neither a structured object nor a string.\<close>

definition unstructured_body :: "axios_error \<Rightarrow> bool" where
  "unstructured_body e =
     (truthy (response_data e) \<and> \<not> typeof_object (response_data e)
      \<and> \<not> typeof_string (response_data e))"

text \<open>
  A conversion for the sample runs (it stands for \<open>JSON.stringify\<close> and for the
  conversion to a string), and a failed request whose body is the number 42.
\<close>

definition stringify_dump :: "jsval \<Rightarrow> jsstring" where
  "stringify_dump v = js ''[dump]''"

definition message_body_error :: axios_error where
  "message_body_error =
     \<lparr>err_message = Some (js ''Request failed with status code 401''),
      err_response = Some \<lparr>data = JObj [(js ''message'', JStr (js ''Invalid credentials''))],
                            statusText = js ''Unauthorized''\<rparr>\<rparr>"

definition number_body_error :: axios_error where
  "number_body_error =
     \<lparr>err_message = Some (js ''Request failed with status code 500''),
      err_response = Some \<lparr>data = JNum 42, statusText = js ''Internal Server Error''\<rparr>\<rparr>"

section \<open>Note store (src/stores/noteStore.ts)\<close>

record note_author =
  author_id :: jsstring
  author_username :: jsstring
  author_firstName :: "jsstring option"
  author_lastName :: "jsstring option"
  author_avatar :: "jsstring option"

record Note =
  note_id :: jsstring
  title :: jsstring
  synopsis :: jsstring
  content :: jsstring
  authorId :: jsstring
  author :: "note_author option"
  isDeleted :: bool
  createdAt :: jsstring
  updatedAt :: jsstring

record note_store =
  "notes" :: "Note list"
  deletedNotes :: "Note list"
  currentNote :: "Note option"
  loading :: bool
  error :: "jsstring option"

definition initial_note_store :: note_store where
  "initial_note_store =
     \<lparr>notes = [], deletedNotes = [], currentNote = None, loading = False, error = None\<rparr>"

text \<open>
  Every asynchronous action starts with \<open>set({ loading: true, error: null })\<close>, awaits the
  gateway, and then settles: one \<open>set\<close> in the \<open>try\<close> branch, or one \<open>set\<close> followed by
  \<open>throw error\<close> in the \<open>catch\<close> branch. An action returns the new store together with
  what the caller sees (\<open>Inl\<close> the re-thrown error, \<open>Inr\<close> the returned value).
\<close>

definition set_pending :: "note_store \<Rightarrow> note_store" where
  "set_pending s = s\<lparr>loading := True, error := None\<rparr>"

definition set_failed :: "jsstring \<Rightarrow> js_error \<Rightarrow> note_store \<Rightarrow> note_store" where
  "set_failed fallback e s = s\<lparr>error := Some (message_or e fallback), loading := False\<rparr>"

definition fetchNotes_settle ::
  "Note list reply outcome \<Rightarrow> note_store \<Rightarrow> note_store \<times> (js_error + unit)" where
  "fetchNotes_settle out s =
     (case out of
        Resolved response \<Rightarrow> (s\<lparr>notes := unwrap response, loading := False\<rparr>, Inr ())
      | Rejected e \<Rightarrow> (set_failed (js ''& Failed to fetch notes'') e s, Inl e))"

definition fetchNotes ::
  "Note list reply outcome \<Rightarrow> note_store \<Rightarrow> note_store \<times> (js_error + unit)" where
  "fetchNotes out s = fetchNotes_settle out (set_pending s)"

definition fetchDeletedNotes_settle ::
  "Note list reply outcome \<Rightarrow> note_store \<Rightarrow> note_store \<times> (js_error + unit)" where
  "fetchDeletedNotes_settle out s =
     (case out of
        Resolved response \<Rightarrow> (s\<lparr>deletedNotes := unwrap response, loading := False\<rparr>, Inr ())
      | Rejected e \<Rightarrow> (set_failed (js ''Failed to fetch deleted notes'') e s, Inl e))"

definition fetchDeletedNotes ::
  "Note list reply outcome \<Rightarrow> note_store \<Rightarrow> note_store \<times> (js_error + unit)" where
  "fetchDeletedNotes out s = fetchDeletedNotes_settle out (set_pending s)"

definition fetchNoteById_settle ::
  "Note reply outcome \<Rightarrow> note_store \<Rightarrow> note_store \<times> (js_error + unit)" where
  "fetchNoteById_settle out s =
     (case out of
        Resolved response \<Rightarrow> (s\<lparr>currentNote := Some (unwrap response), loading := False\<rparr>, Inr ())
      | Rejected e \<Rightarrow> (set_failed (js ''Failed to fetch note'') e s, Inl e))"

definition fetchNoteById ::
  "jsstring \<Rightarrow> Note reply outcome \<Rightarrow> note_store \<Rightarrow> note_store \<times> (js_error + unit)" where
  "fetchNoteById i out s = fetchNoteById_settle out (set_pending s)"

definition createNote_settle ::
  "Note reply outcome \<Rightarrow> note_store \<Rightarrow> note_store \<times> (js_error + Note)" where
  "createNote_settle out s =
     (case out of
        Resolved response \<Rightarrow>
          (let newNote = unwrap response
           in (s\<lparr>notes := newNote # notes s, loading := False\<rparr>, Inr newNote))
      | Rejected e \<Rightarrow> (set_failed (js ''Failed to create note'') e s, Inl e))"

definition createNote ::
  "Note reply outcome \<Rightarrow> note_store \<Rightarrow> note_store \<times> (js_error + Note)" where
  "createNote out s = createNote_settle out (set_pending s)"

definition updateNote_settle ::
  "jsstring \<Rightarrow> Note reply outcome \<Rightarrow> note_store \<Rightarrow> note_store \<times> (js_error + unit)" where
  "updateNote_settle i out s =
     (case out of
        Resolved response \<Rightarrow>
          (let updatedNote = unwrap response
           in (s\<lparr>notes := map (\<lambda>n. if note_id n = i then updatedNote else n) (notes s),
                  currentNote := Some updatedNote,
                  loading := False\<rparr>, Inr ()))
      | Rejected e \<Rightarrow> (set_failed (js ''Failed to update note'') e s, Inl e))"

definition updateNote ::
  "jsstring \<Rightarrow> Note reply outcome \<Rightarrow> note_store \<Rightarrow> note_store \<times> (js_error + unit)" where
  "updateNote i out s = updateNote_settle i out (set_pending s)"

text \<open>\<open>DELETE /api/notes/:id\<close> has no content; the action ignores what it resolves with.\<close>

definition deleteNote_settle ::
  "jsstring \<Rightarrow> unit outcome \<Rightarrow> note_store \<Rightarrow> note_store \<times> (js_error + unit)" where
  "deleteNote_settle i out s =
     (case out of
        Resolved _ \<Rightarrow>
          (s\<lparr>notes := filter (\<lambda>n. note_id n \<noteq> i) (notes s), loading := False\<rparr>, Inr ())
      | Rejected e \<Rightarrow> (set_failed (js ''Failed to delete note'') e s, Inl e))"

definition deleteNote ::
  "jsstring \<Rightarrow> unit outcome \<Rightarrow> note_store \<Rightarrow> note_store \<times> (js_error + unit)" where
  "deleteNote i out s = deleteNote_settle i out (set_pending s)"

definition restoreNote_settle ::
  "jsstring \<Rightarrow> Note reply outcome \<Rightarrow> note_store \<Rightarrow> note_store \<times> (js_error + unit)" where
  "restoreNote_settle i out s =
     (case out of
        Resolved response \<Rightarrow>
          (let restoredNote = unwrap response
           in (s\<lparr>deletedNotes := filter (\<lambda>n. note_id n \<noteq> i) (deletedNotes s),
                  notes := restoredNote # notes s,
                  loading := False\<rparr>, Inr ()))
      | Rejected e \<Rightarrow> (set_failed (js ''Failed to restore note'') e s, Inl e))"

definition restoreNote ::
  "jsstring \<Rightarrow> Note reply outcome \<Rightarrow> note_store \<Rightarrow> note_store \<times> (js_error + unit)" where
  "restoreNote i out s = restoreNote_settle i out (set_pending s)"

definition clearError :: "note_store \<Rightarrow> note_store" where
  "clearError s = s\<lparr>error := None\<rparr>"

text \<open>Sample notes used to run the store on concrete inputs.\<close>

definition mk_note :: "string \<Rightarrow> string \<Rightarrow> bool \<Rightarrow> Note" where
  "mk_note i t d =
     \<lparr>note_id = js i, title = js t, synopsis = [], content = [], authorId = js ''u1'',
      author = None, isDeleted = d, createdAt = [], updatedAt = []\<rparr>"

definition sample_store :: note_store where
  "sample_store =
     \<lparr>notes = [mk_note ''a'' ''A'' False, mk_note ''b'' ''B'' False],
      deletedNotes = [mk_note ''c'' ''C'' True],
      currentNote = Some (mk_note ''b'' ''B'' False),
      loading = False, error = None\<rparr>"

text \<open>
  The rule for the current-note slot as the specification words it, to be compared with
  what \<open>updateNote\<close> does: the slot takes the updated note if it holds a note with the
  updated id, and is unchanged otherwise.
\<close>

definition spec_current_slot :: "jsstring \<Rightarrow> Note \<Rightarrow> Note option \<Rightarrow> Note option" where
  "spec_current_slot i updatedNote c =
     (case c of
        None \<Rightarrow> None
      | Some n \<Rightarrow> if note_id n = i then Some updatedNote else Some n)"

text \<open>
  A call of the note store with the settled promise of its request, and the single \<open>set\<close>
  steps in which the store changes: the pending \<open>set\<close> of some asynchronous call, or the
  settling of a call. Calls in flight may interleave, so a run is a sequence of steps.
\<close>

datatype note_action =
    FetchNotes "Note list reply outcome"
  | FetchDeletedNotes "Note list reply outcome"
  | FetchNoteById jsstring "Note reply outcome"
  | CreateNote "Note reply outcome"
  | UpdateNote jsstring "Note reply outcome"
  | DeleteNote jsstring "unit outcome"
  | RestoreNote jsstring "Note reply outcome"
  | NoteClearError

datatype note_step = NoteBegin | NoteSettle note_action

fun note_settle :: "note_action \<Rightarrow> note_store \<Rightarrow> note_store" where
  "note_settle (FetchNotes out) s = fst (fetchNotes_settle out s)"
| "note_settle (FetchDeletedNotes out) s = fst (fetchDeletedNotes_settle out s)"
| "note_settle (FetchNoteById i out) s = fst (fetchNoteById_settle out s)"
| "note_settle (CreateNote out) s = fst (createNote_settle out s)"
| "note_settle (UpdateNote i out) s = fst (updateNote_settle i out s)"
| "note_settle (DeleteNote i out) s = fst (deleteNote_settle i out s)"
| "note_settle (RestoreNote i out) s = fst (restoreNote_settle i out s)"
| "note_settle NoteClearError s = clearError s"

fun note_do :: "note_step \<Rightarrow> note_store \<Rightarrow> note_store" where
  "note_do NoteBegin s = set_pending s"
| "note_do (NoteSettle a) s = note_settle a s"

fun note_run :: "note_step list \<Rightarrow> note_store \<Rightarrow> note_store" where
  "note_run [] s = s"
| "note_run (t # ts) s = note_run ts (note_do t s)"

text \<open>
  The invariant as the specification words it: no deleted note in the active collection,
  no undeleted note in the trash collection, and no id in both.
\<close>

definition spec_collections_apart :: "note_store \<Rightarrow> bool" where
  "spec_collections_apart s =
     ((\<forall>n \<in> set (notes s). \<not> isDeleted n)
      \<and> (\<forall>n \<in> set (deletedNotes s). isDeleted n)
      \<and> (\<forall>n \<in> set (notes s). note_id n \<notin> set (map note_id (deletedNotes s))))"

text \<open>
  The two flag parts of the invariant on their own.
\<close>

definition spec_flags_hold :: "note_store \<Rightarrow> bool" where
  "spec_flags_hold s =
     ((\<forall>n \<in> set (notes s). \<not> isDeleted n) \<and> (\<forall>n \<in> set (deletedNotes s). isDeleted n))"

text \<open>
  A condition on a reply alone, whatever the store holds: the reply carries the flag of its
  endpoint. The listing of active notes, and a created, updated or restored note, are not
  deleted; the trash listing holds deleted notes only.
\<close>

fun reply_flagged :: "note_action \<Rightarrow> bool" where
  "reply_flagged (FetchNotes (Resolved response)) =
     (\<forall>n \<in> set (unwrap response). \<not> isDeleted n)"
| "reply_flagged (FetchDeletedNotes (Resolved response)) =
     (\<forall>n \<in> set (unwrap response). isDeleted n)"
| "reply_flagged (CreateNote (Resolved response)) = (\<not> isDeleted (unwrap response))"
| "reply_flagged (UpdateNote i (Resolved response)) = (\<not> isDeleted (unwrap response))"
| "reply_flagged (RestoreNote i (Resolved response)) = (\<not> isDeleted (unwrap response))"
| "reply_flagged _ = True"

fun step_flagged :: "note_step \<Rightarrow> bool" where
  "step_flagged NoteBegin = True"
| "step_flagged (NoteSettle a) = reply_flagged a"

text \<open>
  The steps after which the collections are apart by the store's own doing, again by a
  condition on the step alone: a pending step, a failed call, \<open>clearError\<close>,
  \<open>fetchNoteById\<close>, \<open>deleteNote\<close>, and an \<open>updateNote\<close> or \<open>restoreNote\<close> whose reply is an
  undeleted note with the requested id. A listing and \<open>createNote\<close> write the reply into a
  collection without looking at the other one, and are not among them.
\<close>

fun own_action :: "note_action \<Rightarrow> bool" where
  "own_action (FetchNotes (Resolved response)) = False"
| "own_action (FetchDeletedNotes (Resolved response)) = False"
| "own_action (CreateNote (Resolved response)) = False"
| "own_action (UpdateNote i (Resolved response)) =
     (note_id (unwrap response) = i \<and> \<not> isDeleted (unwrap response))"
| "own_action (RestoreNote i (Resolved response)) =
     (note_id (unwrap response) = i \<and> \<not> isDeleted (unwrap response))"
| "own_action _ = True"

fun own_step :: "note_step \<Rightarrow> bool" where
  "own_step NoteBegin = True"
| "own_step (NoteSettle a) = own_action a"

text \<open>
  A sample run: list two notes, delete \<open>a\<close>, list the trash, restore \<open>a\<close>.
\<close>

definition sample_run :: "note_step list" where
  "sample_run =
     [NoteBegin,
      NoteSettle (FetchNotes (Resolved (Enveloped [mk_note ''a'' ''A'' False, mk_note ''b'' ''B'' False]))),
      NoteBegin,
      NoteSettle (DeleteNote (js ''a'') (Resolved ())),
      NoteBegin,
      NoteSettle (FetchDeletedNotes (Resolved (Bare [mk_note ''a'' ''A'' True]))),
      NoteBegin,
      NoteSettle (RestoreNote (js ''a'') (Resolved (Enveloped (mk_note ''a'' ''A'' False))))]"

text \<open>
  A second sample run, of the store's own steps: delete \<open>a\<close>, update \<open>b\<close>, restore \<open>c\<close>.
\<close>

definition sample_own_run :: "note_step list" where
  "sample_own_run =
     [NoteBegin,
      NoteSettle (DeleteNote (js ''a'') (Resolved ())),
      NoteBegin,
      NoteSettle (UpdateNote (js ''b'') (Resolved (Enveloped (mk_note ''b'' ''B2'' False)))),
      NoteBegin,
      NoteSettle (RestoreNote (js ''c'') (Resolved (Bare (mk_note ''c'' ''C'' False))))]"

section \<open>Session store (stores/authStore.ts)\<close>

record User =
  user_id :: jsstring
  email :: jsstring
  username :: jsstring
  firstName :: "jsstring option"
  lastName :: "jsstring option"
  profileImage :: "jsstring option"
  user_createdAt :: jsstring
  user_updatedAt :: jsstring

record AuthResponse =
  response_user :: User
  response_token :: jsstring

text \<open>
  The store's fields \<open>loading\<close> and \<open>error\<close> are named \<open>auth_loading\<close> and \<open>auth_error\<close>
  here, apart from the note store's.
\<close>

record AuthState =
  user :: "User option"
  token :: "jsstring option"
  auth_loading :: bool
  auth_error :: "jsstring option"
  isAuthenticated :: bool

text \<open>The two keys of \<open>localStorage\<close> the store reads and writes; \<open>None\<close> is a missing key.\<close>

record local_storage =
  token_item :: "jsstring option"
  user_item :: "jsstring option"

text \<open>
  \<open>JSON.stringify\<close> and \<open>JSON.parse\<close> are the platform's and are taken as parameters:
  \<open>stringify\<close> serialises a user, \<open>parse\<close> throws (\<open>Inl\<close>) on malformed text and
  otherwise yields \<open>null\<close> (\<open>None\<close>) or a user object.
\<close>

type_synonym json_stringify = "User \<Rightarrow> jsstring"

definition setAuthData :: "json_stringify \<Rightarrow> User \<Rightarrow> jsstring \<Rightarrow> local_storage \<Rightarrow> local_storage" where
  "setAuthData stringify u t st = st\<lparr>token_item := Some t, user_item := Some (stringify u)\<rparr>"

definition clearAuthData :: "local_storage \<Rightarrow> local_storage" where
  "clearAuthData st = st\<lparr>token_item := None, user_item := None\<rparr>"



text \<open>
  An action works on the store and on \<open>localStorage\<close>. As in the note store, an asynchronous
  action first sets the pending flag and settles after the gateway's promise has.
\<close>

type_synonym auth_world = "AuthState \<times> local_storage"

definition auth_set_pending :: "auth_world \<Rightarrow> auth_world" where
  "auth_set_pending w = ((fst w)\<lparr>auth_loading := True, auth_error := None\<rparr>, snd w)"

definition auth_set_failed :: "jsstring \<Rightarrow> js_error \<Rightarrow> auth_world \<Rightarrow> auth_world" where
  "auth_set_failed fallback e w =
     ((fst w)\<lparr>auth_error := Some (message_or e fallback), auth_loading := False\<rparr>, snd w)"

definition login_settle ::
  "json_stringify \<Rightarrow> AuthResponse outcome \<Rightarrow> auth_world \<Rightarrow> auth_world \<times> (js_error + unit)" where
  "login_settle stringify out w =
     (case out of
        Resolved response \<Rightarrow>
          (let u = response_user response; t = response_token response
           in (((fst w)\<lparr>user := Some u, token := Some t, isAuthenticated := True,
                         auth_loading := False\<rparr>,
                setAuthData stringify u t (snd w)), Inr ()))
      | Rejected e \<Rightarrow> (auth_set_failed (js ''Login failed'') e w, Inl e))"

definition login ::
  "json_stringify \<Rightarrow> AuthResponse outcome \<Rightarrow> auth_world \<Rightarrow> auth_world \<times> (js_error + unit)" where
  "login stringify out w = login_settle stringify out (auth_set_pending w)"

definition register_settle ::
  "json_stringify \<Rightarrow> AuthResponse outcome \<Rightarrow> auth_world \<Rightarrow> auth_world \<times> (js_error + unit)" where
  "register_settle stringify out w =
     (case out of
        Resolved response \<Rightarrow>
          (let u = response_user response; t = response_token response
           in (((fst w)\<lparr>user := Some u, token := Some t, isAuthenticated := True,
                         auth_loading := False\<rparr>,
                setAuthData stringify u t (snd w)), Inr ()))
      | Rejected e \<Rightarrow> (auth_set_failed (js ''Registration failed'') e w, Inl e))"

definition register ::
  "json_stringify \<Rightarrow> AuthResponse outcome \<Rightarrow> auth_world \<Rightarrow> auth_world \<times> (js_error + unit)" where
  "register stringify out w = register_settle stringify out (auth_set_pending w)"

text \<open>\<open>logout\<close> is synchronous: it calls no gateway method and has no \<open>throw\<close>.\<close>

definition logout :: "auth_world \<Rightarrow> auth_world" where
  "logout w =
     ((fst w)\<lparr>user := None, token := None, isAuthenticated := False, auth_error := None\<rparr>,
      clearAuthData (snd w))"

definition updateProfile_settle ::
  "json_stringify \<Rightarrow> User outcome \<Rightarrow> auth_world \<Rightarrow> auth_world \<times> (js_error + unit)" where
  "updateProfile_settle stringify out w =
     (case out of
        Resolved updatedUser \<Rightarrow>
          (((fst w)\<lparr>user := Some updatedUser, auth_loading := False\<rparr>,
            (snd w)\<lparr>user_item := Some (stringify updatedUser)\<rparr>), Inr ())
      | Rejected e \<Rightarrow> (auth_set_failed (js ''Profile update failed'') e w, Inl e))"

definition updateProfile ::
  "json_stringify \<Rightarrow> User outcome \<Rightarrow> auth_world \<Rightarrow> auth_world \<times> (js_error + unit)" where
  "updateProfile stringify out w = updateProfile_settle stringify out (auth_set_pending w)"

definition updatePassword_settle ::
  "unit outcome \<Rightarrow> auth_world \<Rightarrow> auth_world \<times> (js_error + unit)" where
  "updatePassword_settle out w =
     (case out of
        Resolved _ \<Rightarrow> (((fst w)\<lparr>auth_loading := False\<rparr>, snd w), Inr ())
      | Rejected e \<Rightarrow> (auth_set_failed (js ''Password update failed'') e w, Inl e))"

definition updatePassword :: "unit outcome \<Rightarrow> auth_world \<Rightarrow> auth_world \<times> (js_error + unit)" where
  "updatePassword out w = updatePassword_settle out (auth_set_pending w)"

definition auth_clearError :: "auth_world \<Rightarrow> auth_world" where
  "auth_clearError w = ((fst w)\<lparr>auth_error := None\<rparr>, snd w)"

text \<open>
  A call of the store, with the settled promise of its request where it makes one. \<open>Logout\<close>
  and \<open>ClearError\<close> carry none. \<open>auth_call\<close> runs a call to its end and gives the new world
  and what the caller sees.
\<close>

datatype auth_action =
    Login "AuthResponse outcome"
  | Register "AuthResponse outcome"
  | Logout
  | UpdateProfile "User outcome"
  | UpdatePassword "unit outcome"
  | ClearError

fun auth_call :: "json_stringify \<Rightarrow> auth_action \<Rightarrow> auth_world \<Rightarrow> auth_world \<times> (js_error + unit)" where
  "auth_call stringify (Login out) w = login stringify out w"
| "auth_call stringify (Register out) w = register stringify out w"
| "auth_call stringify Logout w = (logout w, Inr ())"
| "auth_call stringify (UpdateProfile out) w = updateProfile stringify out w"
| "auth_call stringify (UpdatePassword out) w = updatePassword out w"
| "auth_call stringify ClearError w = (auth_clearError w, Inr ())"







definition anonymous :: AuthState where
  "anonymous =
     \<lparr>user = None, token = None, auth_loading = False, auth_error = None,
      isAuthenticated = False\<rparr>"

definition empty_storage :: local_storage where
  "empty_storage = \<lparr>token_item = None, user_item = None\<rparr>"

text \<open>
  A serialiser and a parser for the sample runs: every user is written as one fixed text,
  which is read back as the sample user; every other text is malformed.
\<close>

definition stringify_sample :: json_stringify where
  "stringify_sample u = js ''{}''"


section \<open>Markdown renderer (utils/markdown.ts)\<close>

text \<open>
  \<open>markdownToHtml\<close> hands the text to the \<open>marked\<close> package and the result to
  \<open>DOMPurify.sanitize\<close> with a fixed configuration. Both are third-party packages and are
  parameters here; the source itself decides only the empty input.
\<close>

record sanitize_config =
  ADD_TAGS :: "jsstring list"
  ADD_ATTR :: "jsstring list"
  FORBID_TAGS :: "jsstring list"
  FORBID_ATTR :: "jsstring list"

definition markdown_sanitize_config :: sanitize_config where
  "markdown_sanitize_config =
     \<lparr>ADD_TAGS = map js [''iframe'', ''table'', ''thead'', ''tbody'', ''tr'', ''th'', ''td'',
                           ''pre'', ''code''],
      ADD_ATTR = map js [''allow'', ''allowfullscreen'', ''frameborder'', ''scrolling'',
                           ''class'', ''style''],
      FORBID_TAGS = map js [''script'', ''style'', ''form'', ''input'', ''button''],
      FORBID_ATTR = map js [''onerror'', ''onload'', ''onclick'', ''onmouseover'']\<rparr>"

definition markdownToHtml ::
  "(jsstring \<Rightarrow> jsstring) \<Rightarrow> (sanitize_config \<Rightarrow> jsstring \<Rightarrow> jsstring) \<Rightarrow> jsstring \<Rightarrow> jsstring" where
  "markdownToHtml marked sanitize markdown =
     (if markdown = [] then []
      else (let rawHtml = marked markdown;
                sanitizedHtml = sanitize markdown_sanitize_config rawHtml
            in sanitizedHtml))"

section \<open>Markdown synopsis (utils/markdown.ts)\<close>

text \<open>
  The class \<open>\s\<close> of a regular expression, which is also what \<open>trim\<close> strips: the
  white space and line terminator code units (tab, LF, VT, FF, CR, space, U+00A0, U+1680,
  U+2000 to U+200A, U+2028, U+2029, U+202F, U+205F, U+3000, U+FEFF).
\<close>

definition is_space :: "code_unit \<Rightarrow> bool" where
  "is_space c =
     (c = 9 \<or> c = 10 \<or> c = 11 \<or> c = 12 \<or> c = 13 \<or> c = 32 \<or> c = 160 \<or> c = 5760
      \<or> (8192 \<le> c \<and> c \<le> 8202) \<or> c = 8232 \<or> c = 8233 \<or> c = 8239 \<or> c = 8287
      \<or> c = 12288 \<or> c = 65279)"

text \<open>
  \<open>s.replace(/re/g, r)\<close> scans \<open>s\<close> from the left: where the expression matches at the
  current position, the replacement is emitted and the scan goes on after the match;
  elsewhere the code unit is copied. None of the expressions below looks behind the
  current position or matches the empty string, so an expression is given by a matcher:
  on the rest of the input, the length of its match at the start (at least 1) and the
  replacement text. The counter of \<open>replace_all\<close> is the number of code units of the last
  match still to be skipped.
\<close>

type_synonym matcher = "jsstring \<Rightarrow> (nat \<times> jsstring) option"

fun replace_all :: "matcher \<Rightarrow> nat \<Rightarrow> jsstring \<Rightarrow> jsstring" where
  "replace_all m k [] = []"
| "replace_all m (Suc k) (c # cs) = replace_all m k cs"
| "replace_all m 0 (c # cs) =
     (case m (c # cs) of
        None \<Rightarrow> c # replace_all m 0 cs
      | Some (len, rep) \<Rightarrow> rep @ replace_all m (len - 1) cs)"

text \<open>
  \<open>/```[\s\S]*?```/\<close> and \<open>/~~~[\s\S]*?~~~/\<close>, replaced by nothing: three delimiters,
  then as little as possible up to the next three delimiters. \<open>find_fence\<close> is the index
  of the first run of three delimiters.
\<close>

fun find_fence :: "code_unit \<Rightarrow> jsstring \<Rightarrow> nat option" where
  "find_fence d (a # b # c # cs) =
     (if a = d \<and> b = d \<and> c = d then Some 0
      else map_option Suc (find_fence d (b # c # cs)))"
| "find_fence d cs = None"

definition match_fenced :: "code_unit \<Rightarrow> matcher" where
  "match_fenced d s =
     (case s of
        a # b # c # rest \<Rightarrow>
          if a = d \<and> b = d \<and> c = d
          then (case find_fence d rest of None \<Rightarrow> None | Some j \<Rightarrow> Some (j + 6, []))
          else None
      | _ \<Rightarrow> None)"

text \<open>
  \<open>/`[^`]*`/\<close>, replaced by nothing: a backquote (96) up to the next backquote.
\<close>

definition match_inline_code :: matcher where
  "match_inline_code s =
     (case s of
        [] \<Rightarrow> None
      | c # rest \<Rightarrow>
          if c = 96 \<and> 96 \<in> set rest
          then Some (length (takeWhile (\<lambda>x. x \<noteq> 96) rest) + 2, [])
          else None)"

text \<open>
  \<open>/!?\[([^\]]*)]\([^)]*\)/\<close>, replaced by \<open>$1\<close>: an optional \<open>!\<close> (33), \<open>[\<close> (91),
  the label up to the first \<open>]\<close> (93), which \<open>(\<close> (40) must follow, then everything up to
  the first \<open>)\<close> (41). The replacement is the label.
\<close>

definition match_link_body :: matcher where
  "match_link_body s =
     (case s of
        [] \<Rightarrow> None
      | c # t \<Rightarrow>
          if c \<noteq> 91 then None
          else (let label = takeWhile (\<lambda>x. x \<noteq> 93) t
                in case drop (length label) t of
                     x # y # u \<Rightarrow>
                       if x = 93 \<and> y = 40 \<and> 41 \<in> set u
                       then Some (length label + length (takeWhile (\<lambda>x. x \<noteq> 41) u) + 4, label)
                       else None
                   | _ \<Rightarrow> None))"

definition match_link :: matcher where
  "match_link s =
     (case s of
        [] \<Rightarrow> None
      | c # t \<Rightarrow>
          if c = 33
          then (case match_link_body t of None \<Rightarrow> None | Some (len, label) \<Rightarrow> Some (len + 1, label))
          else match_link_body s)"

text \<open>
  \<open>/[#*`_~>\|]/\<close>, replaced by nothing.
\<close>

definition match_symbol :: matcher where
  "match_symbol s =
     (case s of
        [] \<Rightarrow> None
      | c # t \<Rightarrow>
          if c = 35 \<or> c = 42 \<or> c = 96 \<or> c = 95 \<or> c = 126 \<or> c = 62 \<or> c = 124
          then Some (1, []) else None)"

text \<open>
  \<open>/\n\s*[-+*]\s/\<close>, replaced by a space: a line feed, the longest run of white space,
  a bullet (\<open>-\<close> 45, \<open>+\<close> 43 or \<open>*\<close> 42) and one white space.
\<close>

definition match_list_item :: matcher where
  "match_list_item s =
     (case s of
        [] \<Rightarrow> None
      | c # t \<Rightarrow>
          if c \<noteq> 10 then None
          else (let ws = takeWhile is_space t
                in case drop (length ws) t of
                     b # w # u \<Rightarrow>
                       if (b = 45 \<or> b = 43 \<or> b = 42) \<and> is_space w
                       then Some (length ws + 3, [32])
                       else None
                   | _ \<Rightarrow> None))"

text \<open>
  \<open>/\n+/\<close> and \<open>/\s+/\<close>, each run replaced by one space (32).
\<close>

definition match_newlines :: matcher where
  "match_newlines s =
     (case s of
        [] \<Rightarrow> None
      | c # t \<Rightarrow>
          if c = 10 then Some (length (takeWhile (\<lambda>x. x = 10) t) + 1, [32]) else None)"

definition match_spaces :: matcher where
  "match_spaces s =
     (case s of
        [] \<Rightarrow> None
      | c # t \<Rightarrow>
          if is_space c then Some (length (takeWhile is_space t) + 1, [32]) else None)"

definition trim :: "jsstring \<Rightarrow> jsstring" where
  "trim s = rev (dropWhile is_space (rev (dropWhile is_space s)))"

text \<open>
  The plain text of \<open>extractSynopsis\<close>: the chain of replacements in the order of the
  source, then \<open>trim()\<close>.
\<close>

definition plainText :: "jsstring \<Rightarrow> jsstring" where
  "plainText markdown =
     trim
      (replace_all match_spaces 0
        (replace_all match_newlines 0
          (replace_all match_list_item 0
            (replace_all match_symbol 0
              (replace_all match_link 0
                (replace_all match_inline_code 0
                  (replace_all (match_fenced 126) 0
                    (replace_all (match_fenced 96) 0 markdown))))))))"

text \<open>
  \<open>s.lastIndexOf(c, position)\<close> for a single code unit: the search starts at
  \<open>position\<close>, or at the last index when \<open>position\<close> is beyond it, and walks down;
  \<open>-1\<close> when nothing is found.
\<close>

fun lastIndexFrom :: "code_unit \<Rightarrow> jsstring \<Rightarrow> nat \<Rightarrow> int" where
  "lastIndexFrom c s 0 = (if s \<noteq> [] \<and> s ! 0 = c then 0 else - 1)"
| "lastIndexFrom c s (Suc i) =
     (if Suc i < length s \<and> s ! Suc i = c then int (Suc i) else lastIndexFrom c s i)"

definition lastIndexOf :: "jsstring \<Rightarrow> code_unit \<Rightarrow> nat \<Rightarrow> int" where
  "lastIndexOf s c position = lastIndexFrom c s (min position (length s - 1))"

text \<open>
  \<open>maxLength\<close> is a length: a natural number. For an integer \<open>maxLength\<close> the test
  \<open>lastSpace > maxLength * 0.8\<close> is \<open>5 * lastSpace > 4 * maxLength\<close>.
\<close>

definition breakPoint :: "jsstring \<Rightarrow> nat \<Rightarrow> nat" where
  "breakPoint p maxLength =
     (let lastSpace = lastIndexOf p 32 maxLength
      in if 5 * lastSpace > 4 * int maxLength then nat lastSpace else maxLength)"

text \<open>
  \<open>extractSynopsis(markdown, maxLength)\<close>; \<open>substring(0, breakPoint)\<close> is \<open>take\<close>, since
  the break point is within the text.
\<close>

definition extractSynopsis :: "jsstring \<Rightarrow> nat \<Rightarrow> jsstring" where
  "extractSynopsis markdown maxLength =
     (if markdown = [] then []
      else (let p = plainText markdown
            in if length p > maxLength
               then trim (take (breakPoint p maxLength) p) @ js ''...''
               else p))"

text \<open>A matcher whose match is inside the input and whose replacement is no longer than the match.\<close>

definition shrinking :: "matcher \<Rightarrow> bool" where
  "shrinking m = (\<forall>s len rep. m s = Some (len, rep) \<longrightarrow> 1 \<le> len \<and> len \<le> length s \<and> length rep \<le> len)"

section \<open>Note store: deleteNote\<close>

lemma filter_neq_length:
  "length (filter (\<lambda>n. f n \<noteq> i) xs) + length (filter (\<lambda>n. f n = i) xs) = length xs"
  by (induction xs) auto

text \<open>
  C5. When the active collection holds exactly one entry with the given id, a successful
  \<open>deleteNote\<close> leaves the active collection as the remaining entries in their order (the
  entries with another id, each unchanged), one entry shorter, and leaves the trash
  collection as it was.
\<close>

theorem deleteNote_removes_one:
  assumes "length (filter (\<lambda>n. note_id n = i) (notes s)) = 1"
    and "deleteNote i (Resolved u) s = (s', r)"
  shows "notes s' = filter (\<lambda>n. note_id n \<noteq> i) (notes s)
       \<and> Suc (length (notes s')) = length (notes s)
       \<and> (\<forall>n \<in> set (notes s'). n \<in> set (notes s) \<and> note_id n \<noteq> i)
       \<and> (\<forall>n \<in> set (notes s). note_id n \<noteq> i \<longrightarrow> n \<in> set (notes s'))
       \<and> deletedNotes s' = deletedNotes s
       \<and> r = Inr ()"
proof -
  from assms(2) have s': "s' = (set_pending s)\<lparr>notes := filter (\<lambda>n. note_id n \<noteq> i) (notes s),
      loading := False\<rparr>" and r: "r = Inr ()"
    by (auto simp: deleteNote_def deleteNote_settle_def set_pending_def)
  have n: "notes s' = filter (\<lambda>n. note_id n \<noteq> i) (notes s)"
    by (simp add: s' set_pending_def)
  have d: "deletedNotes s' = deletedNotes s"
    by (simp add: s' set_pending_def)
  have "length (notes s') + 1 = length (notes s)"
    using filter_neq_length [of note_id i "notes s"] assms(1) by (simp add: n)
  with n d r show ?thesis by auto
qed

theorem deleteNote_removes_one_witness:
  "length (filter (\<lambda>n. note_id n = js ''a'') (notes sample_store)) = 1
   \<and> notes (fst (deleteNote (js ''a'') (Resolved ()) sample_store)) = [mk_note ''b'' ''B'' False]
   \<and> deletedNotes (fst (deleteNote (js ''a'') (Resolved ()) sample_store)) = [mk_note ''c'' ''C'' True]"
proof -
  have h: "length (filter (\<lambda>n. note_id n = js ''a'') (notes sample_store)) = 1"
    by (simp add: sample_store_def mk_note_def js_def)
  have e: "deleteNote (js ''a'') (Resolved ()) sample_store =
      (fst (deleteNote (js ''a'') (Resolved ()) sample_store),
       snd (deleteNote (js ''a'') (Resolved ()) sample_store))"
    by simp
  from deleteNote_removes_one [OF h e] h show ?thesis
    by (simp add: sample_store_def mk_note_def js_def)
qed

section \<open>Note store: updateNote\<close>

text \<open>
  C1, as stated, fails: the store holds note \<open>b\<close> in the current-note slot, note \<open>a\<close> is
  updated, and the slot now holds the updated \<open>a\<close>, where the stated rule keeps \<open>b\<close>.
\<close>

theorem updateNote_current_slot_counterexample:
  "currentNote (fst (updateNote (js ''a'') (Resolved (Enveloped (mk_note ''a'' ''A2'' False)))
       sample_store)) = Some (mk_note ''a'' ''A2'' False)
   \<and> spec_current_slot (js ''a'') (mk_note ''a'' ''A2'' False) (currentNote sample_store)
       = Some (mk_note ''b'' ''B'' False)
   \<and> mk_note ''a'' ''A2'' False \<noteq> mk_note ''b'' ''B'' False"
  by (simp add: updateNote_def updateNote_settle_def set_pending_def sample_store_def
      spec_current_slot_def mk_note_def js_def Let_def)

text \<open>
  C1, amended. A successful \<open>updateNote\<close> keeps the length and order of the active
  collection, puts the server-returned note at every position whose entry has the given id,
  leaves every other entry as it was, leaves the trash collection as it was, and sets the
  current-note slot to the server-returned note whatever the slot held.
\<close>

theorem updateNote_replaces_in_place:
  assumes "updateNote i (Resolved response) s = (s', r)"
  shows "length (notes s') = length (notes s)
       \<and> (\<forall>k < length (notes s).
            notes s' ! k = (if note_id (notes s ! k) = i then unwrap response else notes s ! k))
       \<and> deletedNotes s' = deletedNotes s
       \<and> currentNote s' = Some (unwrap response)
       \<and> r = Inr ()"
proof -
  from assms have s': "s' = (set_pending s)\<lparr>notes :=
        map (\<lambda>n. if note_id n = i then unwrap response else n) (notes s),
      currentNote := Some (unwrap response), loading := False\<rparr>" and r: "r = Inr ()"
    by (auto simp: updateNote_def updateNote_settle_def set_pending_def Let_def)
  have n: "notes s' = map (\<lambda>n. if note_id n = i then unwrap response else n) (notes s)"
    by (simp add: s' set_pending_def)
  have "deletedNotes s' = deletedNotes s" "currentNote s' = Some (unwrap response)"
    by (simp_all add: s' set_pending_def)
  with n r show ?thesis by simp
qed

theorem updateNote_replaces_in_place_witness:
  "notes (fst (updateNote (js ''a'') (Resolved (Enveloped (mk_note ''a'' ''A2'' False)))
       sample_store)) ! 0 = mk_note ''a'' ''A2'' False
   \<and> notes (fst (updateNote (js ''a'') (Resolved (Enveloped (mk_note ''a'' ''A2'' False)))
       sample_store)) ! 1 = mk_note ''b'' ''B'' False
   \<and> length (notes (fst (updateNote (js ''a'') (Resolved (Enveloped (mk_note ''a'' ''A2'' False)))
       sample_store))) = 2"
proof -
  have e: "updateNote (js ''a'') (Resolved (Enveloped (mk_note ''a'' ''A2'' False))) sample_store =
      (fst (updateNote (js ''a'') (Resolved (Enveloped (mk_note ''a'' ''A2'' False))) sample_store),
       snd (updateNote (js ''a'') (Resolved (Enveloped (mk_note ''a'' ''A2'' False))) sample_store))"
    by simp
  have l: "length (notes sample_store) = 2"
    by (simp add: sample_store_def)
  have n0: "note_id (notes sample_store ! 0) = js ''a''"
    and n1: "note_id (notes sample_store ! 1) \<noteq> js ''a''"
    and v1: "notes sample_store ! 1 = mk_note ''b'' ''B'' False"
    by (simp_all add: sample_store_def mk_note_def js_def)
  from updateNote_replaces_in_place [OF e] l n0 n1 v1 show ?thesis
    by simp
qed

section \<open>Session store: user and credential\<close>









section \<open>Session store: failing login, clearError, logout\<close>

lemma message_or_nonempty: "fallback \<noteq> [] \<Longrightarrow> message_or e fallback \<noteq> []"
  by (simp add: message_or_def split: option.splits)

text \<open>
  C7. From an anonymous store, a \<open>login\<close> whose request is rejected leaves \<open>isAuthenticated\<close>
  false and \<open>user\<close> and the credential absent, leaves \<open>localStorage\<close> as it was, records a
  non-empty error message, and re-throws the error it caught. A following \<open>clearError\<close>
  leaves no error message and the same \<open>user\<close>, credential and \<open>isAuthenticated\<close>, and
  a second \<open>clearError\<close> changes nothing.
\<close>

theorem login_failure_stays_anonymous:
  assumes "user s = None" and "token s = None" and "\<not> isAuthenticated s"
    and "login stringify (Rejected e) (s, st) = (w', r)"
  shows "\<not> isAuthenticated (fst w') \<and> user (fst w') = None \<and> token (fst w') = None
       \<and> snd w' = st
       \<and> auth_error (fst w') = Some (message_or e (js ''Login failed''))
       \<and> message_or e (js ''Login failed'') \<noteq> []
       \<and> r = Inl e
       \<and> auth_error (fst (auth_clearError w')) = None
       \<and> isAuthenticated (fst (auth_clearError w')) = isAuthenticated (fst w')
       \<and> user (fst (auth_clearError w')) = user (fst w')
       \<and> token (fst (auth_clearError w')) = token (fst w')
       \<and> snd (auth_clearError w') = snd w'
       \<and> auth_clearError (auth_clearError w') = auth_clearError w'"
proof -
  from assms(4) have w': "w' = auth_set_failed (js ''Login failed'') e (auth_set_pending (s, st))"
    and r: "r = Inl e"
    by (auto simp: login_def login_settle_def)
  have fb: "js ''Login failed'' \<noteq> []"
    by (simp add: js_def)
  have err: "auth_error (fst w') = Some (message_or e (js ''Login failed''))"
    by (simp add: w' auth_set_failed_def)
  have keep: "isAuthenticated (fst w') = isAuthenticated s" "user (fst w') = user s"
    "token (fst w') = token s" "snd w' = st"
    by (simp_all add: w' auth_set_failed_def auth_set_pending_def)
  have clear: "auth_error (fst (auth_clearError w')) = None"
    "isAuthenticated (fst (auth_clearError w')) = isAuthenticated (fst w')"
    "user (fst (auth_clearError w')) = user (fst w')"
    "token (fst (auth_clearError w')) = token (fst w')"
    "snd (auth_clearError w') = snd w'"
    "auth_clearError (auth_clearError w') = auth_clearError w'"
    by (simp_all add: auth_clearError_def)
  from err message_or_nonempty [OF fb, of e] keep clear r assms(1-3) show ?thesis
    by simp
qed

theorem login_failure_stays_anonymous_witness:
  "user anonymous = None \<and> token anonymous = None \<and> \<not> isAuthenticated anonymous
   \<and> auth_error (fst (fst (login stringify_sample
        (Rejected \<lparr>err_message = Some (js ''Invalid credentials'')\<rparr>)
        (anonymous, empty_storage)))) = Some (js ''Invalid credentials'')
   \<and> \<not> isAuthenticated (fst (fst (login stringify_sample
        (Rejected \<lparr>err_message = Some (js ''Invalid credentials'')\<rparr>)
        (anonymous, empty_storage))))
   \<and> snd (login stringify_sample
        (Rejected \<lparr>err_message = Some (js ''Invalid credentials'')\<rparr>)
        (anonymous, empty_storage)) = Inl \<lparr>err_message = Some (js ''Invalid credentials'')\<rparr>"
proof -
  have h: "user anonymous = None" "token anonymous = None" "\<not> isAuthenticated anonymous"
    by (simp_all add: anonymous_def)
  have e: "login stringify_sample (Rejected \<lparr>err_message = Some (js ''Invalid credentials'')\<rparr>)
        (anonymous, empty_storage) =
      (fst (login stringify_sample (Rejected \<lparr>err_message = Some (js ''Invalid credentials'')\<rparr>)
        (anonymous, empty_storage)),
       snd (login stringify_sample (Rejected \<lparr>err_message = Some (js ''Invalid credentials'')\<rparr>)
        (anonymous, empty_storage)))"
    by simp
  have m: "auth_error (fst (fst (login stringify_sample
        (Rejected \<lparr>err_message = Some (js ''Invalid credentials'')\<rparr>)
        (anonymous, empty_storage)))) = Some (js ''Invalid credentials'')"
    by (simp add: login_def login_settle_def auth_set_failed_def auth_set_pending_def
        message_or_def js_def)
  from login_failure_stays_anonymous [OF h e] h m show ?thesis
    by simp
qed

text \<open>
  C10. Whatever the store holds, \<open>logout\<close> leaves the error message absent, \<open>user\<close> and the
  credential absent and \<open>isAuthenticated\<close> false, keeps the pending flag, and removes both
  persisted values. As a call it takes no settled request (it makes none) and the caller
  always sees it return.
\<close>

theorem logout_resets_error:
  "auth_error (fst (logout w)) = None
   \<and> user (fst (logout w)) = None
   \<and> token (fst (logout w)) = None
   \<and> \<not> isAuthenticated (fst (logout w))
   \<and> auth_loading (fst (logout w)) = auth_loading (fst w)
   \<and> token_item (snd (logout w)) = None
   \<and> user_item (snd (logout w)) = None
   \<and> auth_call stringify Logout w = (logout w, Inr ())"
  by (simp add: logout_def clearAuthData_def)

section \<open>Note store: active and trash collections\<close>

lemma note_settle_flags:
  "spec_flags_hold s \<Longrightarrow> reply_flagged a \<Longrightarrow> spec_flags_hold (note_settle a s)"
proof (cases a)
  case (FetchNotes out)
  assume "spec_flags_hold s" "reply_flagged a"
  with FetchNotes show ?thesis
    by (cases out) (auto simp: spec_flags_hold_def fetchNotes_settle_def set_failed_def)
next
  case (FetchDeletedNotes out)
  assume "spec_flags_hold s" "reply_flagged a"
  with FetchDeletedNotes show ?thesis
    by (cases out) (auto simp: spec_flags_hold_def fetchDeletedNotes_settle_def set_failed_def)
next
  case (FetchNoteById i out)
  assume "spec_flags_hold s"
  with FetchNoteById show ?thesis
    by (cases out) (auto simp: spec_flags_hold_def fetchNoteById_settle_def set_failed_def)
next
  case (CreateNote out)
  assume "spec_flags_hold s" "reply_flagged a"
  with CreateNote show ?thesis
    by (cases out) (auto simp: spec_flags_hold_def createNote_settle_def set_failed_def Let_def)
next
  case (UpdateNote i out)
  assume "spec_flags_hold s" "reply_flagged a"
  with UpdateNote show ?thesis
    by (cases out)
      (auto simp: spec_flags_hold_def updateNote_settle_def set_failed_def Let_def
        split: if_splits)
next
  case (DeleteNote i out)
  assume "spec_flags_hold s"
  with DeleteNote show ?thesis
    by (cases out) (auto simp: spec_flags_hold_def deleteNote_settle_def set_failed_def)
next
  case (RestoreNote i out)
  assume "spec_flags_hold s" "reply_flagged a"
  with RestoreNote show ?thesis
    by (cases out) (auto simp: spec_flags_hold_def restoreNote_settle_def set_failed_def Let_def)
next
  case NoteClearError
  assume "spec_flags_hold s"
  with NoteClearError show ?thesis
    by (simp add: spec_flags_hold_def clearError_def)
qed

lemma note_do_flags:
  "spec_flags_hold s \<Longrightarrow> step_flagged t \<Longrightarrow> spec_flags_hold (note_do t s)"
  by (cases t) (simp_all add: note_settle_flags, simp add: spec_flags_hold_def set_pending_def)

lemma note_run_flags:
  "spec_flags_hold s \<Longrightarrow> list_all step_flagged ts \<Longrightarrow> spec_flags_hold (note_run ts s)"
  by (induction ts arbitrary: s) (auto simp: note_do_flags)

lemma updateNote_settle_apart:
  assumes "spec_collections_apart s" and "note_id (unwrap r) = i" and "\<not> isDeleted (unwrap r)"
  shows "spec_collections_apart (fst (updateNote_settle i (Resolved r) s))"
proof -
  let ?ns = "map (\<lambda>n. if note_id n = i then unwrap r else n) (notes s)"
  have ids: "\<exists>n \<in> set (notes s). note_id n = note_id m" if "m \<in> set ?ns" for m
    using that assms(2) by (auto split: if_splits)
  have flags: "\<not> isDeleted m" if "m \<in> set ?ns" for m
    using that assms(1,3) by (auto simp: spec_collections_apart_def split: if_splits)
  have apart: "note_id m \<notin> set (map note_id (deletedNotes s))" if "m \<in> set ?ns" for m
  proof -
    from ids [OF that] obtain n where "n \<in> set (notes s)" "note_id n = note_id m"
      by blast
    with assms(1) show ?thesis
      by (auto simp: spec_collections_apart_def)
  qed
  have "notes (fst (updateNote_settle i (Resolved r) s)) = ?ns"
    and "deletedNotes (fst (updateNote_settle i (Resolved r) s)) = deletedNotes s"
    by (simp_all add: updateNote_settle_def Let_def)
  with flags apart assms(1) show ?thesis
    by (simp add: spec_collections_apart_def)
qed

lemma restoreNote_settle_apart:
  assumes "spec_collections_apart s" and "note_id (unwrap r) = i" and "\<not> isDeleted (unwrap r)"
  shows "spec_collections_apart (fst (restoreNote_settle i (Resolved r) s))"
  using assms
  by (auto simp: spec_collections_apart_def restoreNote_settle_def Let_def)

lemma restoreNote_settle_removes:
  "i \<notin> set (map note_id (deletedNotes (fst (restoreNote_settle i (Resolved r) s))))"
  by (auto simp: restoreNote_settle_def Let_def)

lemma note_settle_own:
  "spec_collections_apart s \<Longrightarrow> own_action a \<Longrightarrow> spec_collections_apart (note_settle a s)"
proof (cases a)
  case (FetchNotes out)
  assume "spec_collections_apart s" "own_action a"
  with FetchNotes show ?thesis
    by (cases out) (auto simp: spec_collections_apart_def fetchNotes_settle_def set_failed_def)
next
  case (FetchDeletedNotes out)
  assume "spec_collections_apart s" "own_action a"
  with FetchDeletedNotes show ?thesis
    by (cases out)
      (auto simp: spec_collections_apart_def fetchDeletedNotes_settle_def set_failed_def)
next
  case (FetchNoteById i out)
  assume "spec_collections_apart s"
  with FetchNoteById show ?thesis
    by (cases out)
      (auto simp: spec_collections_apart_def fetchNoteById_settle_def set_failed_def)
next
  case (CreateNote out)
  assume "spec_collections_apart s" "own_action a"
  with CreateNote show ?thesis
    by (cases out) (auto simp: spec_collections_apart_def createNote_settle_def set_failed_def)
next
  case (UpdateNote i out)
  assume h: "spec_collections_apart s" "own_action a"
  show ?thesis
  proof (cases out)
    case (Rejected e)
    with UpdateNote h show ?thesis
      by (simp add: spec_collections_apart_def updateNote_settle_def set_failed_def)
  next
    case (Resolved r)
    with UpdateNote h updateNote_settle_apart [of s r i] show ?thesis
      by simp
  qed
next
  case (DeleteNote i out)
  assume "spec_collections_apart s"
  with DeleteNote show ?thesis
    by (cases out)
      (auto simp: spec_collections_apart_def deleteNote_settle_def set_failed_def)
next
  case (RestoreNote i out)
  assume h: "spec_collections_apart s" "own_action a"
  show ?thesis
  proof (cases out)
    case (Rejected e)
    with RestoreNote h show ?thesis
      by (simp add: spec_collections_apart_def restoreNote_settle_def set_failed_def)
  next
    case (Resolved r)
    with RestoreNote h restoreNote_settle_apart [of s r i] show ?thesis
      by simp
  qed
next
  case NoteClearError
  assume "spec_collections_apart s"
  with NoteClearError show ?thesis
    by (simp add: spec_collections_apart_def clearError_def)
qed

lemma note_do_own:
  "spec_collections_apart s \<Longrightarrow> own_step t \<Longrightarrow> spec_collections_apart (note_do t s)"
  by (cases t) (simp_all add: note_settle_own, simp add: spec_collections_apart_def set_pending_def)

lemma note_run_own:
  "spec_collections_apart s \<Longrightarrow> list_all own_step ts \<Longrightarrow> spec_collections_apart (note_run ts s)"
  by (induction ts arbitrary: s) (auto simp: note_do_own)

text \<open>
  C8, as stated, fails. A trash listing is requested while note \<open>c\<close> is in the trash; before
  it settles, \<open>restoreNote\<close> of \<open>c\<close> settles; then the listing settles. The note \<open>c\<close> is now
  in both collections.
\<close>

theorem stale_trash_listing_counterexample:
  "\<not> spec_collections_apart
      (note_run
         [NoteBegin,
          NoteBegin,
          NoteSettle (RestoreNote (js ''c'') (Resolved (Enveloped (mk_note ''c'' ''C'' False)))),
          NoteSettle (FetchDeletedNotes (Resolved (Enveloped [mk_note ''c'' ''C'' True])))]
         initial_note_store)"
  by (simp add: spec_collections_apart_def initial_note_store_def set_pending_def
      restoreNote_settle_def fetchDeletedNotes_settle_def mk_note_def js_def Let_def)

text \<open>
  Every reply of that run carries the flag of its endpoint, so such replies do not keep the
  ids apart.
\<close>

lemma stale_trash_listing_flagged:
  "list_all step_flagged
     [NoteBegin,
      NoteBegin,
      NoteSettle (RestoreNote (js ''c'') (Resolved (Enveloped (mk_note ''c'' ''C'' False)))),
      NoteSettle (FetchDeletedNotes (Resolved (Enveloped [mk_note ''c'' ''C'' True])))]"
  by (simp add: mk_note_def)

text \<open>
  C8, amended. (1) In every state reached from the initial empty store by any interleaving
  of store steps whose replies carry the flag of their endpoint (\<open>step_flagged\<close>, a
  condition on the replies alone), no deleted note is in the active collection and no
  undeleted note is in the trash collection. (2) That no id is in both collections is kept
  by the store's own steps: from any store where the invariant holds, it holds after any
  interleaving of pending steps, failed calls, \<open>clearError\<close>, \<open>fetchNoteById\<close>,
  \<open>deleteNote\<close>, and \<open>updateNote\<close> and \<open>restoreNote\<close> whose reply is an undeleted note with
  the requested id (\<open>own_step\<close>). (3) After a successful \<open>restoreNote\<close> of an id, whatever
  the reply and the store, no entry of the trash collection has that id.
\<close>

theorem collections_flags_and_own_steps:
  "(list_all step_flagged ts \<longrightarrow>
      (\<forall>n \<in> set (notes (note_run ts initial_note_store)). \<not> isDeleted n)
      \<and> (\<forall>n \<in> set (deletedNotes (note_run ts initial_note_store)). isDeleted n))
   \<and> (spec_collections_apart s \<and> list_all own_step ts \<longrightarrow>
        spec_collections_apart (note_run ts s))
   \<and> i \<notin> set (map note_id (deletedNotes (fst (restoreNote i (Resolved r) s))))"
proof (intro conjI impI)
  assume f: "list_all step_flagged ts"
  have "spec_flags_hold initial_note_store"
    by (simp add: spec_flags_hold_def initial_note_store_def)
  from note_run_flags [OF this f]
  show "\<forall>n \<in> set (notes (note_run ts initial_note_store)). \<not> isDeleted n"
    and "\<forall>n \<in> set (deletedNotes (note_run ts initial_note_store)). isDeleted n"
    by (simp_all add: spec_flags_hold_def)
next
  assume "spec_collections_apart s \<and> list_all own_step ts"
  then show "spec_collections_apart (note_run ts s)"
    by (simp add: note_run_own)
next
  show "i \<notin> set (map note_id (deletedNotes (fst (restoreNote i (Resolved r) s))))"
    unfolding restoreNote_def by (rule restoreNote_settle_removes)
qed

theorem collections_flags_and_own_steps_witness:
  "list_all step_flagged sample_run
   \<and> notes (note_run sample_run initial_note_store)
       = [mk_note ''a'' ''A'' False, mk_note ''b'' ''B'' False]
   \<and> spec_collections_apart sample_store
   \<and> list_all own_step sample_own_run
   \<and> notes (note_run sample_own_run sample_store)
       = [mk_note ''c'' ''C'' False, mk_note ''b'' ''B2'' False]
   \<and> deletedNotes (note_run sample_own_run sample_store) = []
   \<and> spec_collections_apart (note_run sample_own_run sample_store)
   \<and> \<not> isDeleted (hd (notes (note_run sample_run initial_note_store)))"
proof -
  have f: "list_all step_flagged sample_run"
    by (simp add: sample_run_def mk_note_def)
  have n: "notes (note_run sample_run initial_note_store)
       = [mk_note ''a'' ''A'' False, mk_note ''b'' ''B'' False]"
    by (simp add: sample_run_def initial_note_store_def set_pending_def
        fetchNotes_settle_def deleteNote_settle_def fetchDeletedNotes_settle_def
        restoreNote_settle_def mk_note_def js_def Let_def)
  have a: "spec_collections_apart sample_store"
    by (simp add: spec_collections_apart_def sample_store_def mk_note_def js_def)
  have o: "list_all own_step sample_own_run"
    by (simp add: sample_own_run_def mk_note_def)
  have m: "notes (note_run sample_own_run sample_store)
       = [mk_note ''c'' ''C'' False, mk_note ''b'' ''B2'' False]"
    and d: "deletedNotes (note_run sample_own_run sample_store) = []"
    by (simp_all add: sample_own_run_def sample_store_def set_pending_def
        deleteNote_settle_def updateNote_settle_def restoreNote_settle_def
        mk_note_def js_def Let_def)
  from collections_flags_and_own_steps [of sample_run sample_store "js ''c''"
      "Bare (mk_note ''c'' ''C'' False)"] f
    collections_flags_and_own_steps [of sample_own_run sample_store "js ''c''"
      "Bare (mk_note ''c'' ''C'' False)"] a o n m d
  show ?thesis by simp
qed

section \<open>HTTP gateway: precedence of the error message\<close>

text \<open>
  C4, as stated, fails: the request failed with the number 42 as its body and a
  transport-level description. Rule (4) is the first applicable one, and the handler throws
  the fallback message.
\<close>

theorem number_body_counterexample:
  "response_error_handler stringify_dump stringify_dump number_body_error
     = \<lparr>err_message = Some (js ''Something went wrong'')\<rparr>
   \<and> spec_message stringify_dump number_body_error
     = JStr (js ''Request failed with status code 500'')"
  by (simp add: response_error_handler_def chosen_message_def spec_message_def
      number_body_error_def response_data_def fallback_message_def truthy_string_def
      Let_def js_def)

text \<open>
  C4, amended. The handler throws exactly one error. Its message follows the precedence
  (1) the non-empty \<open>message\<close> field of a structured body, (2) the body when it is a
  non-empty string, (3) the dump of a structured body without such a field, and, only when
  the body is absent or falsy, (4) the non-empty transport-level description, (5) the
  non-empty status text, (6) the fallback. A body that is present but neither structured
  nor a string (a non-zero number, \<open>true\<close>) gives the fallback, whatever the description
  and status text.
\<close>

theorem chosen_message_precedence:
  "chosen_message json_stringify e =
     (if unstructured_body e then JStr fallback_message else spec_message json_stringify e)
   \<and> (\<exists>m. response_error_handler json_stringify to_string e = \<lparr>err_message = Some m\<rparr>)"
  by (auto simp: chosen_message_def spec_message_def unstructured_body_def
      response_error_handler_def Let_def split: jsval.splits)

theorem chosen_message_precedence_witness:
  "\<not> unstructured_body message_body_error
   \<and> chosen_message stringify_dump message_body_error = JStr (js ''Invalid credentials'')
   \<and> unstructured_body number_body_error
   \<and> chosen_message stringify_dump number_body_error = JStr fallback_message"
proof -
  have u: "\<not> unstructured_body message_body_error" "unstructured_body number_body_error"
    by (simp_all add: unstructured_body_def message_body_error_def number_body_error_def
        response_data_def)
  have m: "spec_message stringify_dump message_body_error = JStr (js ''Invalid credentials'')"
    by (simp add: spec_message_def message_body_error_def response_data_def Let_def js_def)
  from chosen_message_precedence [of stringify_dump message_body_error stringify_dump]
    chosen_message_precedence [of stringify_dump number_body_error stringify_dump] u m
  show ?thesis by simp
qed

section \<open>Markdown renderer: empty input\<close>

lemma markdownToHtml_empty: "markdownToHtml marked sanitize [] = []"
  by (simp add: markdownToHtml_def)

section \<open>Markdown synopsis: lengths and the break point\<close>

lemma replace_all_length:
  "shrinking m \<Longrightarrow> length (replace_all m k s) + min k (length s) \<le> length s"
proof (induction m k s rule: replace_all.induct)
  case (1 m k)
  then show ?case by simp
next
  case (2 m k c cs)
  then show ?case by simp
next
  case (3 m c cs)
  show ?case
  proof (cases "m (c # cs)")
    case None
    with 3 show ?thesis by simp
  next
    case (Some a)
    obtain len rep where a: "a = (len, rep)" by (cases a)
    from 3(3) Some a have b: "1 \<le> len" "len \<le> length (c # cs)" "length rep \<le> len"
      unfolding shrinking_def by blast+
    from 3(2) [OF Some a[symmetric]] 3(3) have
      "length (replace_all m (len - 1) cs) + min (len - 1) (length cs) \<le> length cs"
      by simp
    with b Some a show ?thesis by simp
  qed
qed

lemma replace_all_shorter: "shrinking m \<Longrightarrow> length (replace_all m 0 s) \<le> length s"
  using replace_all_length [of m 0 s] by simp

lemma find_fence_bound: "find_fence d s = Some j \<Longrightarrow> j + 3 \<le> length s"
  by (induction d s arbitrary: j rule: find_fence.induct) (auto split: if_splits)

lemma takeWhile_stops: "x \<in> set xs \<Longrightarrow> length (takeWhile (\<lambda>y. y \<noteq> x) xs) < length xs"
  by (induction xs) auto

lemma shrinking_fenced: "shrinking (match_fenced d)"
  unfolding shrinking_def match_fenced_def
  by (auto split: list.splits if_splits option.splits dest: find_fence_bound)

lemma shrinking_inline_code: "shrinking match_inline_code"
  unfolding shrinking_def match_inline_code_def
  using takeWhile_stops [of 96]
  by (fastforce split: list.splits if_splits)

lemma split_at_takeWhile: "length xs = length (takeWhile P xs) + length (drop (length (takeWhile P xs)) xs)"
  by (simp add: length_takeWhile_le)

lemma match_link_body_bounds:
  assumes "match_link_body s = Some (len, rep)"
  shows "1 \<le> len \<and> len \<le> length s \<and> length rep + 4 \<le> len"
proof -
  from assms obtain c t where s: "s = c # t"
    by (cases s) (simp_all add: match_link_body_def)
  let ?label = "takeWhile (\<lambda>x. x \<noteq> 93) t"
  let ?rest = "drop (length ?label) t"
  from assms s have c: "c = 91"
    by (simp add: match_link_body_def split: if_splits)
  from assms s c have m:
    "(case ?rest of
        x # y # u \<Rightarrow>
          if x = 93 \<and> y = 40 \<and> 41 \<in> set u
          then Some (length ?label + length (takeWhile (\<lambda>x. x \<noteq> 41) u) + 4, ?label)
          else None
      | _ \<Rightarrow> None) = Some (len, rep)"
    by (simp add: match_link_body_def Let_def)
  from m obtain x v where r1: "?rest = x # v"
    by (cases ?rest) simp_all
  from m r1 obtain y u where r2: "v = y # u"
    by (cases v) simp_all
  from m r1 r2 have u: "41 \<in> set u"
    and r: "len = length ?label + length (takeWhile (\<lambda>x. x \<noteq> 41) u) + 4" "rep = ?label"
    by (auto split: if_splits)
  from r1 r2 have "length ?rest = 2 + length u" by simp
  with split_at_takeWhile [of t "\<lambda>x. x \<noteq> 93"]
  have "length t = length ?label + 2 + length u" by linarith
  with takeWhile_stops [OF u] r s show ?thesis by simp
qed

lemma shrinking_link: "shrinking match_link"
  unfolding shrinking_def
proof (intro allI impI)
  fix s len rep
  assume a: "match_link s = Some (len, rep)"
  show "1 \<le> len \<and> len \<le> length s \<and> length rep \<le> len"
  proof (cases s)
    case Nil
    with a show ?thesis by (simp add: match_link_def)
  next
    case (Cons c t)
    show ?thesis
    proof (cases "c = 33")
      case True
      with a Cons obtain l where "match_link_body t = Some (l, rep)" "len = l + 1"
        by (auto simp: match_link_def split: option.splits)
      with match_link_body_bounds [of t l rep] Cons show ?thesis by simp
    next
      case False
      with a Cons have "match_link_body s = Some (len, rep)"
        by (simp add: match_link_def)
      with match_link_body_bounds [of s len rep] show ?thesis by simp
    qed
  qed
qed

lemma shrinking_symbol: "shrinking match_symbol"
  unfolding shrinking_def match_symbol_def
  by (auto split: list.splits if_splits)

lemma match_list_item_bounds:
  assumes "match_list_item s = Some (len, rep)"
  shows "1 \<le> len \<and> len \<le> length s \<and> length rep \<le> len"
proof -
  from assms obtain c t where s: "s = c # t"
    by (cases s) (simp_all add: match_list_item_def)
  let ?ws = "takeWhile is_space t"
  let ?rest = "drop (length ?ws) t"
  from assms s have c: "c = 10"
    by (simp add: match_list_item_def split: if_splits)
  from assms s c have m:
    "(case ?rest of
        b # w # u \<Rightarrow>
          if (b = 45 \<or> b = 43 \<or> b = 42) \<and> is_space w
          then Some (length ?ws + 3, [32])
          else None
      | _ \<Rightarrow> None) = Some (len, rep)"
    by (simp add: match_list_item_def Let_def)
  from m obtain b v where r1: "?rest = b # v"
    by (cases ?rest) simp_all
  from m r1 obtain w u where r2: "v = w # u"
    by (cases v) simp_all
  from m r1 r2 have r: "len = length ?ws + 3 \<and> rep = [32]"
    by (simp split: if_splits)
  from r1 r2 have "length ?rest = 2 + length u" by simp
  with split_at_takeWhile [of t is_space]
  have "length t = length ?ws + 2 + length u" by linarith
  with r s show ?thesis by simp
qed

lemma shrinking_list_item: "shrinking match_list_item"
  unfolding shrinking_def using match_list_item_bounds by blast

lemma shrinking_newlines: "shrinking match_newlines"
  unfolding shrinking_def match_newlines_def
  by (auto split: list.splits if_splits simp: length_takeWhile_le)

lemma shrinking_spaces: "shrinking match_spaces"
  unfolding shrinking_def match_spaces_def
  by (auto split: list.splits if_splits simp: length_takeWhile_le)

lemma trim_length: "length (trim s) \<le> length s"
proof -
  have "length (dropWhile is_space (rev (dropWhile is_space s))) \<le> length (rev (dropWhile is_space s))"
    by (rule length_dropWhile_le)
  also have "\<dots> \<le> length s"
    by (simp add: length_dropWhile_le)
  finally show ?thesis by (simp add: trim_def)
qed

lemma plainText_length: "length (plainText markdown) \<le> length markdown"
proof -
  let ?s1 = "replace_all (match_fenced 96) 0 markdown"
  let ?s2 = "replace_all (match_fenced 126) 0 ?s1"
  let ?s3 = "replace_all match_inline_code 0 ?s2"
  let ?s4 = "replace_all match_link 0 ?s3"
  let ?s5 = "replace_all match_symbol 0 ?s4"
  let ?s6 = "replace_all match_list_item 0 ?s5"
  let ?s7 = "replace_all match_newlines 0 ?s6"
  let ?s8 = "replace_all match_spaces 0 ?s7"
  have "length (trim ?s8) \<le> length ?s8" by (rule trim_length)
  also have "\<dots> \<le> length ?s7" by (rule replace_all_shorter [OF shrinking_spaces])
  also have "\<dots> \<le> length ?s6" by (rule replace_all_shorter [OF shrinking_newlines])
  also have "\<dots> \<le> length ?s5" by (rule replace_all_shorter [OF shrinking_list_item])
  also have "\<dots> \<le> length ?s4" by (rule replace_all_shorter [OF shrinking_symbol])
  also have "\<dots> \<le> length ?s3" by (rule replace_all_shorter [OF shrinking_link])
  also have "\<dots> \<le> length ?s2" by (rule replace_all_shorter [OF shrinking_inline_code])
  also have "\<dots> \<le> length ?s1" by (rule replace_all_shorter [OF shrinking_fenced])
  also have "\<dots> \<le> length markdown" by (rule replace_all_shorter [OF shrinking_fenced])
  finally show ?thesis by (simp add: plainText_def)
qed

lemma lastIndexFrom_range: "- 1 \<le> lastIndexFrom c s i \<and> lastIndexFrom c s i \<le> int i"
  by (induction i) auto

lemma lastIndexFrom_hit:
  "0 \<le> lastIndexFrom c s i \<Longrightarrow>
     nat (lastIndexFrom c s i) < length s \<and> s ! nat (lastIndexFrom c s i) = c"
proof (induction i)
  case 0
  then show ?case by (auto split: if_splits)
next
  case (Suc i)
  have n: "nat (1 + int i) = Suc i" by simp
  from Suc show ?case by (auto split: if_splits simp: n)
qed

lemma lastIndexFrom_last:
  "j \<le> i \<Longrightarrow> j < length s \<Longrightarrow> s ! j = c \<Longrightarrow> int j \<le> lastIndexFrom c s i"
proof (induction i)
  case 0
  then show ?case by auto
next
  case (Suc i)
  show ?case
  proof (cases "j = Suc i")
    case True
    with Suc.prems show ?thesis by simp
  next
    case False
    with Suc.prems have "j \<le> i" by simp
    from Suc.IH [OF this Suc.prems(2,3)] lastIndexFrom_range [of c s i]
    show ?thesis by auto
  qed
qed

lemma breakPoint_le: "breakPoint p n \<le> n"
  using lastIndexFrom_range [of 32 p "min n (length p - 1)"]
  by (auto simp: breakPoint_def lastIndexOf_def Let_def)

lemma breakPoint_cases:
  assumes "n < length p"
  shows "(4 * n < 5 * breakPoint p n \<and> p ! breakPoint p n = 32
            \<and> (\<forall>j. breakPoint p n < j \<and> j \<le> n \<longrightarrow> p ! j \<noteq> 32))
         \<or> (breakPoint p n = n \<and> (\<forall>j \<le> n. p ! j = 32 \<longrightarrow> 5 * j \<le> 4 * n))"
proof -
  define l where "l = lastIndexFrom 32 p n"
  from assms have "min n (length p - 1) = n"
    by simp
  then have L: "lastIndexOf p 32 n = l"
    by (simp only: lastIndexOf_def l_def)
  show ?thesis
  proof (cases "5 * l > 4 * int n")
    case True
    then have bp: "breakPoint p n = nat l" and l0: "0 \<le> l"
      by (auto simp: breakPoint_def L Let_def)
    from lastIndexFrom_hit [of 32 p n] l0 have hit: "p ! nat l = 32"
      by (simp add: l_def)
    have "\<forall>j. nat l < j \<and> j \<le> n \<longrightarrow> p ! j \<noteq> 32"
    proof (intro allI impI notI)
      fix j assume j: "nat l < j \<and> j \<le> n" and "p ! j = 32"
      with lastIndexFrom_last [of j n p 32] assms have "int j \<le> l"
        by (simp add: l_def)
      with j show False by linarith
    qed
    with True l0 hit bp show ?thesis by auto
  next
    case False
    then have bp: "breakPoint p n = n"
      by (simp add: breakPoint_def L Let_def)
    have "\<forall>j \<le> n. p ! j = 32 \<longrightarrow> 5 * j \<le> 4 * n"
    proof (intro allI impI)
      fix j assume "j \<le> n" "p ! j = 32"
      with lastIndexFrom_last [of j n p 32] assms have "int j \<le> l"
        by (simp add: l_def)
      with False show "5 * j \<le> 4 * n" by linarith
    qed
    with bp show ?thesis by simp
  qed
qed

lemma js_dots: "js ''...'' = [46, 46, 46]" by (simp add: js_def)

lemma trim_take_length: "length (trim (take (breakPoint p n) p)) \<le> n"
proof -
  have "length (trim (take (breakPoint p n) p)) \<le> length (take (breakPoint p n) p)"
    by (rule trim_length)
  also have "\<dots> \<le> breakPoint p n" by simp
  also have "\<dots> \<le> n" by (rule breakPoint_le)
  finally show ?thesis .
qed

lemmas synopsis_defs = extractSynopsis_def plainText_def trim_def breakPoint_def lastIndexOf_def
  match_fenced_def match_inline_code_def match_link_def match_link_body_def match_symbol_def
  match_list_item_def match_newlines_def match_spaces_def is_space_def js_def Let_def

lemma plainText_Nil: "plainText [] = []"
  by (simp add: plainText_def trim_def)

section \<open>Markdown synopsis: truncation\<close>

text \<open>
  C3, as stated, fails in each of its parts about long input. The input \<open>abcdef\<close> is longer
  than 3 and its synopsis has 6 code units, more than 3 + 1. The input \<open>**ab**\<close> is longer
  than 3 and its synopsis \<open>ab\<close> has no ellipsis. With \<open>maxLength\<close> 10 the text
  \<open>abcdefgh ijklm\<close> has a space at index 8, which is 80% of 10, and is cut at 10.
\<close>

theorem synopsis_long_input_counterexample:
  "3 < length (js ''abcdef'')
   \<and> extractSynopsis (js ''abcdef'') 3 = js ''abc...''
   \<and> \<not> length (extractSynopsis (js ''abcdef'') 3) \<le> 3 + 1
   \<and> 3 < length (js ''**ab**'')
   \<and> extractSynopsis (js ''**ab**'') 3 = js ''ab''
   \<and> js ''abcdefgh ijklm'' ! 8 = 32
   \<and> extractSynopsis (js ''abcdefgh ijklm'') 10 = js ''abcdefgh i...''"
  by (simp add: synopsis_defs)

text \<open>
  C3, amended. If the input is no longer than \<open>maxLength\<close>, the synopsis is the plain text
  of the input, nothing appended. If the plain text is longer than \<open>maxLength\<close>, the
  synopsis is the plain text cut at the break point, trimmed, with \<open>...\<close> appended; it has
  at most \<open>maxLength + 3\<close> code units. The break point is the index of the last space at
  or before index \<open>maxLength\<close> when that index is strictly beyond 80% of \<open>maxLength\<close>;
  otherwise (no space at or before \<open>maxLength\<close> lies beyond 80%) it is \<open>maxLength\<close>.
\<close>

theorem extractSynopsis_short_or_truncated:
  "(length markdown \<le> maxLength \<longrightarrow> extractSynopsis markdown maxLength = plainText markdown)
   \<and> (maxLength < length (plainText markdown) \<longrightarrow>
        extractSynopsis markdown maxLength
          = trim (take (breakPoint (plainText markdown) maxLength) (plainText markdown)) @ js ''...''
        \<and> length (extractSynopsis markdown maxLength) \<le> maxLength + 3
        \<and> breakPoint (plainText markdown) maxLength \<le> maxLength
        \<and> ((4 * maxLength < 5 * breakPoint (plainText markdown) maxLength
              \<and> plainText markdown ! breakPoint (plainText markdown) maxLength = 32
              \<and> (\<forall>j. breakPoint (plainText markdown) maxLength < j \<and> j \<le> maxLength
                    \<longrightarrow> plainText markdown ! j \<noteq> 32))
           \<or> (breakPoint (plainText markdown) maxLength = maxLength
              \<and> (\<forall>j \<le> maxLength. plainText markdown ! j = 32 \<longrightarrow> 5 * j \<le> 4 * maxLength))))"
proof (intro conjI impI)
  assume "length markdown \<le> maxLength"
  with plainText_length [of markdown] have "\<not> maxLength < length (plainText markdown)"
    by simp
  then show "extractSynopsis markdown maxLength = plainText markdown"
    by (simp add: extractSynopsis_def plainText_Nil)
next
  assume long: "maxLength < length (plainText markdown)"
  then have ne: "markdown \<noteq> []"
    by (auto simp: plainText_Nil)
  with long show e: "extractSynopsis markdown maxLength
          = trim (take (breakPoint (plainText markdown) maxLength) (plainText markdown)) @ js ''...''"
    by (simp add: extractSynopsis_def Let_def)
  from trim_take_length [of "plainText markdown" maxLength]
  show "length (extractSynopsis markdown maxLength) \<le> maxLength + 3"
    by (simp add: e js_dots)
  show "breakPoint (plainText markdown) maxLength \<le> maxLength"
    by (rule breakPoint_le)
  from breakPoint_cases [OF long]
  show "(4 * maxLength < 5 * breakPoint (plainText markdown) maxLength
              \<and> plainText markdown ! breakPoint (plainText markdown) maxLength = 32
              \<and> (\<forall>j. breakPoint (plainText markdown) maxLength < j \<and> j \<le> maxLength
                    \<longrightarrow> plainText markdown ! j \<noteq> 32))
           \<or> (breakPoint (plainText markdown) maxLength = maxLength
              \<and> (\<forall>j \<le> maxLength. plainText markdown ! j = 32 \<longrightarrow> 5 * j \<le> 4 * maxLength))" .
qed

theorem extractSynopsis_short_or_truncated_witness:
  "length (js ''**ab**'') \<le> 10
   \<and> extractSynopsis (js ''**ab**'') 10 = js ''ab''
   \<and> 10 < length (plainText (js ''abcdefghi jklm''))
   \<and> breakPoint (plainText (js ''abcdefghi jklm'')) 10 = 9
   \<and> extractSynopsis (js ''abcdefghi jklm'') 10 = js ''abcdefghi...''
   \<and> length (extractSynopsis (js ''abcdefghi jklm'') 10) \<le> 10 + 3"
proof -
  have s: "length (js ''**ab**'') \<le> 10"
    by (simp add: js_def)
  have ps: "plainText (js ''**ab**'') = js ''ab''"
    by (simp add: synopsis_defs)
  have l: "10 < length (plainText (js ''abcdefghi jklm''))"
    by (simp add: synopsis_defs)
  have b: "breakPoint (plainText (js ''abcdefghi jklm'')) 10 = 9"
    and t: "trim (take 9 (plainText (js ''abcdefghi jklm''))) @ js ''...'' = js ''abcdefghi...''"
    by (simp_all add: synopsis_defs)
  from extractSynopsis_short_or_truncated [of "js ''**ab**''" 10] s ps
    extractSynopsis_short_or_truncated [of "js ''abcdefghi jklm''" 10] l b t
  show ?thesis by (simp add: js_def)
qed

text \<open>
  C9. Whether the synopsis is truncated is decided by the length of the plain text, not of
  the input: when the plain text is longer than \<open>maxLength\<close> the synopsis is the truncated
  text followed by the three code units \<open>...\<close> (46 is the full stop) and has at most
  \<open>maxLength + 3\<close> code units; otherwise it is the plain text.
\<close>

theorem extractSynopsis_decides_on_plain_text:
  "extractSynopsis markdown maxLength =
     (if maxLength < length (plainText markdown)
      then trim (take (breakPoint (plainText markdown) maxLength) (plainText markdown)) @ [46, 46, 46]
      else plainText markdown)
   \<and> (maxLength < length (plainText markdown) \<longrightarrow>
        length (extractSynopsis markdown maxLength) \<le> maxLength + 3)"
proof -
  have e: "extractSynopsis markdown maxLength =
     (if maxLength < length (plainText markdown)
      then trim (take (breakPoint (plainText markdown) maxLength) (plainText markdown)) @ [46, 46, 46]
      else plainText markdown)"
    by (cases "markdown = []") (simp_all add: extractSynopsis_def plainText_Nil js_dots Let_def)
  from trim_take_length [of "plainText markdown" maxLength] e show ?thesis
    by simp
qed

theorem extractSynopsis_decides_on_plain_text_witness:
  "3 < length (plainText (js ''abcdef''))
   \<and> extractSynopsis (js ''abcdef'') 3 = [97, 98, 99, 46, 46, 46]
   \<and> length (extractSynopsis (js ''abcdef'') 3) \<le> 3 + 3
   \<and> \<not> 3 < length (plainText (js ''*a b*''))
   \<and> 3 < length (js ''*a b*'')
   \<and> extractSynopsis (js ''*a b*'') 3 = js ''a b''"
proof -
  have l: "3 < length (plainText (js ''abcdef''))"
    by (simp add: synopsis_defs)
  have t: "trim (take (breakPoint (plainText (js ''abcdef'')) 3) (plainText (js ''abcdef'')))
      = [97, 98, 99]"
    by (simp add: synopsis_defs)
  have p: "plainText (js ''*a b*'') = js ''a b''"
    by (simp add: synopsis_defs)
  have n: "length (js ''a b'') = 3" "3 < length (js ''*a b*'')"
    by (simp_all add: js_def)
  from extractSynopsis_decides_on_plain_text [of "js ''abcdef''" 3] l t
    extractSynopsis_decides_on_plain_text [of "js ''*a b*''" 3] p n
  show ?thesis by (simp add: js_def)
qed

end
